theory Spec2Isabelle
  imports Complex_Main "HOL-Library.Char_ord" "HOL-Library.List_Lexorder"
begin

section \<open>Data model\<close>

text \<open>
  The RFM page of \<open>dashboard.py\<close> works on the filtered order table. Of its columns the
  computation reads four: the customer identifier and the order identifier (strings), the
  purchase timestamp (a pandas \<open>Timestamp\<close>, here the number of nanoseconds since the
  epoch) and the payment amount. Amounts, quantile edges and ranks are floats in the
  source; they are modelled by exact rational arithmetic, so rounding is not part of the
  model. Strings are ordered lexicographically by character code, as Python orders them.
\<close>

record order_row =
  customer_unique_id :: string
  order_id :: string
  order_purchase_timestamp :: int
  total_payment :: rat

text \<open>The aggregated table \<open>rfm_df\<close> after the columns are renamed.\<close>

record rfm_row =
  customer_id :: string
  recency :: int
  frequency :: nat
  monetary :: rat

text \<open>The same table once the score, composite score and segment columns are added.\<close>

record scored_row = rfm_row +
  r_score :: int
  f_score :: int
  m_score :: int
  rfm_score :: rat
  segment :: string

text \<open>
  The script defines no exception class of its own. What the RFM computation can raise
  is the \<open>ValueError\<close> of pandas, carried here with its message (without the printed
  bin edges).
\<close>

datatype py_error = ValueError string

fun exc_type :: "py_error \<Rightarrow> string" where
  "exc_type (ValueError msg) = ''ValueError''"

fun exc_msg :: "py_error \<Rightarrow> string" where
  "exc_msg (ValueError msg) = msg"

section \<open>Aggregation per customer\<close>

text \<open>
  \<^verbatim>\<open>
  reference_date = filtered_df['order_purchase_timestamp'].max() + pd.Timedelta(days=1)
  rfm_df = filtered_df.groupby('customer_unique_id').agg({
      'order_purchase_timestamp': lambda x: (reference_date - x.max()).days,
      'order_id': 'nunique',
      'total_payment': 'sum'
  }).reset_index()
  rfm_df.columns = ['customer_id', 'recency', 'frequency', 'monetary']
  \<close>
  The maximum of an empty series is \<open>NaT\<close> (here \<open>None\<close>). \<open>groupby\<close> sorts the groups
  by key and keeps the rows of each group in table order. \<open>Timedelta.days\<close> is the floor of
  the difference in days.
\<close>

definition one_day :: int where
  "one_day = 86400000000000"

fun series_max :: "int list \<Rightarrow> int option" where
  "series_max [] = None"
| "series_max (x # xs) = Some (fold max xs x)"

definition reference_date :: "order_row list \<Rightarrow> int option" where
  "reference_date filtered_df =
     map_option (\<lambda>t. t + one_day) (series_max (map order_purchase_timestamp filtered_df))"

definition timedelta_days :: "int \<Rightarrow> int" where
  "timedelta_days d = d div one_day"

definition group_keys :: "order_row list \<Rightarrow> string list" where
  "group_keys filtered_df = sort (remdups (map customer_unique_id filtered_df))"

definition group_rows :: "order_row list \<Rightarrow> string \<Rightarrow> order_row list" where
  "group_rows filtered_df c = filter (\<lambda>row. customer_unique_id row = c) filtered_df"

definition nunique :: "'a list \<Rightarrow> nat" where
  "nunique xs = length (remdups xs)"

text \<open>
  One group gives one row. A group of \<open>groupby\<close> is never empty; the \<open>None\<close> branch stands
  for the \<open>NaT\<close> that the maximum of an empty group would be.
\<close>

definition agg_group :: "int \<Rightarrow> order_row list \<Rightarrow> string \<Rightarrow> rfm_row option" where
  "agg_group ref filtered_df c =
     (let g = group_rows filtered_df c
      in case series_max (map order_purchase_timestamp g) of
           None \<Rightarrow> None
         | Some last_purchase \<Rightarrow>
             Some \<lparr>customer_id = c,
                   recency = timedelta_days (ref - last_purchase),
                   frequency = nunique (map order_id g),
                   monetary = sum_list (map total_payment g)\<rparr>)"

definition rfm_aggregate :: "order_row list \<Rightarrow> rfm_row list" where
  "rfm_aggregate filtered_df =
     (case reference_date filtered_df of
        None \<Rightarrow> []
      | Some ref \<Rightarrow> List.map_filter (agg_group ref filtered_df) (group_keys filtered_df))"

section \<open>Quintile scoring\<close>

text \<open>
  \<^verbatim>\<open>
  rfm_df['r_score'] = pd.qcut(rfm_df['recency'], q=5, labels=[5, 4, 3, 2, 1])
  rfm_df['f_score'] = pd.qcut(rfm_df['frequency'].rank(method='first'), q=5,
                              labels=[1, 2, 3, 4, 5])
  rfm_df['m_score'] = pd.qcut(rfm_df['monetary'], q=5, labels=[1, 2, 3, 4, 5])
  \<close>
  \<open>rank(method='first')\<close> ranks the values in ascending order, equal values in the order
  they appear in the series: the rank of an entry is one more than the number of smaller
  entries plus the number of equal entries before it.
\<close>

definition rank_first :: "nat list \<Rightarrow> nat list" where
  "rank_first xs =
     map (\<lambda>i. 1 + length (filter (\<lambda>y. y < xs ! i) xs)
                 + length (filter (\<lambda>y. y = xs ! i) (take i xs)))
         [0..<length xs]"

text \<open>
  \<open>pd.qcut\<close> with \<open>q=5\<close> takes as bin edges the quantiles at \<open>k/5\<close> for \<open>k = 0..5\<close>, by
  linear interpolation: the edge lies at position \<open>k(n-1)/5\<close> of the sorted values, between
  the entries at the floor of that position and the next one. Edges that are not pairwise
  distinct raise \<open>ValueError\<close> (\<open>duplicates='raise'\<close> is the default); the quantiles of an
  empty series are all \<open>NaN\<close>, which raises the same error. A value is then put in the bin
  found by \<open>searchsorted\<close> from the left, the lowest edge included in the first bin; a
  value outside all bins gets no label (\<open>NaN\<close>, here \<open>None\<close>).
\<close>

definition quantile5 :: "rat list \<Rightarrow> nat \<Rightarrow> rat" where
  "quantile5 xs k =
     (let s = sort xs; n = length s; p = k * (n - 1);
          i = p div 5; g = of_nat (p mod 5) / 5; j = min (i + 1) (n - 1)
      in s ! i + (s ! j - s ! i) * g)"

definition qcut_bins :: "rat list \<Rightarrow> rat list" where
  "qcut_bins xs = map (quantile5 xs) [0..<6]"

definition searchsorted_left :: "rat list \<Rightarrow> rat \<Rightarrow> nat" where
  "searchsorted_left bins x = length (takeWhile (\<lambda>b. b < x) bins)"

definition bin_id :: "rat list \<Rightarrow> rat \<Rightarrow> nat" where
  "bin_id bins x = (if x = hd bins then 1 else searchsorted_left bins x)"

definition take_label :: "int list \<Rightarrow> rat list \<Rightarrow> rat \<Rightarrow> int option" where
  "take_label labels bins x =
     (let i = bin_id bins x
      in if i = 0 \<or> i = length bins then None else Some (labels ! (i - 1)))"

definition qcut :: "rat list \<Rightarrow> int list \<Rightarrow> py_error + int option list" where
  "qcut xs labels =
     (if xs = [] \<or> \<not> distinct (qcut_bins xs)
      then Inl (ValueError ''Bin edges must be unique'')
      else if length labels \<noteq> length (qcut_bins xs) - 1
      then Inl (ValueError ''Bin labels must be one fewer than the number of bin edges'')
      else Inr (map (take_label labels (qcut_bins xs)) xs))"

text \<open>\<open>astype(int)\<close> on a score column raises when an entry has no label.\<close>

fun astype_int :: "int option list \<Rightarrow> py_error + int list" where
  "astype_int [] = Inr []"
| "astype_int (None # vs) = Inl (ValueError ''Cannot convert float NaN to integer'')"
| "astype_int (Some v # vs) =
     (case astype_int vs of Inl e \<Rightarrow> Inl e | Inr ws \<Rightarrow> Inr (v # ws))"

section \<open>Customer segmentation (dashboard.py, \<open>rfm_segment\<close>)\<close>

text \<open>
  The source is an \<open>if\<close>/\<open>elif\<close> chain over the three integer scores of a row; the
  labels are Python strings.
  \<^verbatim>\<open>
  def rfm_segment(row):
      r, f, m = int(row['r_score']), int(row['f_score']), int(row['m_score'])
      if r >= 4 and f >= 4 and m >= 4:   return 'Champions'
      elif r >= 3 and f >= 4:            return 'Loyal Customers'
      elif r >= 4 and f >= 2 and f <= 3: return 'Potential Loyalist'
      elif r >= 4 and f == 1:            return 'Recent Customers'
      elif r <= 2 and f >= 3:            return 'At Risk'
      elif r <= 2 and m >= 4:            return "Can't Lose Them"
      elif r <= 2 and f <= 2:            return 'Hibernating'
      else:                              return 'Need Attention'
  \<close>
\<close>

definition rfm_segment :: "int \<Rightarrow> int \<Rightarrow> int \<Rightarrow> string" where
  "rfm_segment r f m =
     (if r \<ge> 4 \<and> f \<ge> 4 \<and> m \<ge> 4 then ''Champions''
      else if r \<ge> 3 \<and> f \<ge> 4 then ''Loyal Customers''
      else if r \<ge> 4 \<and> f \<ge> 2 \<and> f \<le> 3 then ''Potential Loyalist''
      else if r \<ge> 4 \<and> f = 1 then ''Recent Customers''
      else if r \<le> 2 \<and> f \<ge> 3 then ''At Risk''
      else if r \<le> 2 \<and> m \<ge> 4 then ''Can't Lose Them''
      else if r \<le> 2 \<and> f \<le> 2 then ''Hibernating''
      else ''Need Attention'')"

text \<open>
  The rule table as the specification words it: eight ordered rules, each a condition on
  \<open>(r, f, m)\<close> and a label; the first rule whose condition holds gives the label.
\<close>

definition spec_rules :: "((int \<Rightarrow> int \<Rightarrow> int \<Rightarrow> bool) \<times> string) list" where
  "spec_rules =
     [(\<lambda>r f m. r \<ge> 4 \<and> f \<ge> 4 \<and> m \<ge> 4, ''Champions''),
      (\<lambda>r f m. r \<ge> 3 \<and> f \<ge> 4, ''Loyal Customers''),
      (\<lambda>r f m. r \<ge> 4 \<and> 2 \<le> f \<and> f \<le> 3, ''Potential Loyalist''),
      (\<lambda>r f m. r \<ge> 4 \<and> f = 1, ''Recent Customers''),
      (\<lambda>r f m. r \<le> 2 \<and> f \<ge> 3, ''At Risk''),
      (\<lambda>r f m. r \<le> 2 \<and> m \<ge> 4, ''Can't Lose Them''),
      (\<lambda>r f m. r \<le> 2 \<and> f \<le> 2, ''Hibernating''),
      (\<lambda>r f m. True, ''Need Attention'')]"

fun first_match :: "((int \<Rightarrow> int \<Rightarrow> int \<Rightarrow> bool) \<times> string) list \<Rightarrow> int \<Rightarrow> int \<Rightarrow> int \<Rightarrow> string option" where
  "first_match [] r f m = None"
| "first_match ((c, l) # rules) r f m = (if c r f m then Some l else first_match rules r f m)"

definition segment_labels :: "string list" where
  "segment_labels = map snd spec_rules"

section \<open>The RFM computation as a whole\<close>

text \<open>
  \<^verbatim>\<open>
  rfm_df['rfm_score'] = (rfm_df['r_score'].astype(int) + rfm_df['f_score'].astype(int)
                         + rfm_df['m_score'].astype(int)) / 3
  rfm_df['segment'] = rfm_df.apply(rfm_segment, axis=1)
  \<close>
  The statements run in the source's order, and the first exception ends the computation.
\<close>

definition score_row :: "rfm_row \<times> int \<times> int \<times> int \<Rightarrow> scored_row" where
  "score_row = (\<lambda>(row, r, f, m).
     \<lparr>customer_id = customer_id row, recency = recency row,
      frequency = frequency row, monetary = monetary row,
      r_score = r, f_score = f, m_score = m,
      rfm_score = of_int (r + f + m) / 3,
      segment = rfm_segment r f m\<rparr>)"

definition rfm_engine :: "order_row list \<Rightarrow> py_error + scored_row list" where
  "rfm_engine filtered_df =
     (let rfm_df = rfm_aggregate filtered_df
      in case qcut (map (\<lambda>row. of_int (recency row)) rfm_df) [5, 4, 3, 2, 1] of
           Inl e \<Rightarrow> Inl e
         | Inr r_cat \<Rightarrow>
       case qcut (map of_nat (rank_first (map frequency rfm_df))) [1, 2, 3, 4, 5] of
           Inl e \<Rightarrow> Inl e
         | Inr f_cat \<Rightarrow>
       case qcut (map monetary rfm_df) [1, 2, 3, 4, 5] of
           Inl e \<Rightarrow> Inl e
         | Inr m_cat \<Rightarrow>
       case astype_int r_cat of Inl e \<Rightarrow> Inl e | Inr rs \<Rightarrow>
       case astype_int f_cat of Inl e \<Rightarrow> Inl e | Inr fs \<Rightarrow>
       case astype_int m_cat of Inl e \<Rightarrow> Inl e | Inr ms \<Rightarrow>
         Inr (map score_row (zip rfm_df (zip rs (zip fs ms)))))"

text \<open>
  The whole script body sits in one \<open>try\<close> whose only handler is
  \<^verbatim>\<open>except Exception as e: st.error(f"Error loading data: {e}")\<close>
  so an exception of the RFM computation ends as that message on the page.
\<close>

definition rfm_page :: "order_row list \<Rightarrow> string + scored_row list" where
  "rfm_page filtered_df =
     (case rfm_engine filtered_df of
        Inl e \<Rightarrow> Inl (''Error loading data: '' @ exc_msg e)
      | Inr rfm_df \<Rightarrow> Inr rfm_df)"

section \<open>Properties of the segmentation\<close>

lemma rfm_segment_first_match: "first_match spec_rules r f m = Some (rfm_segment r f m)"
  by (simp add: spec_rules_def rfm_segment_def)

lemma distinct_segment_labels: "distinct segment_labels"
  by (simp add: segment_labels_def spec_rules_def)

lemma rfm_segment_label: "rfm_segment r f m \<in> set segment_labels"
  by (simp add: segment_labels_def spec_rules_def rfm_segment_def)

lemma need_attention_conds:
  "rfm_segment r f m = ''Need Attention'' \<longleftrightarrow>
     \<not> (r \<ge> 4 \<and> f \<ge> 4 \<and> m \<ge> 4) \<and> \<not> (r \<ge> 3 \<and> f \<ge> 4) \<and> \<not> (r \<ge> 4 \<and> f \<ge> 2 \<and> f \<le> 3)
     \<and> \<not> (r \<ge> 4 \<and> f = 1) \<and> \<not> (r \<le> 2 \<and> f \<ge> 3) \<and> \<not> (r \<le> 2 \<and> m \<ge> 4) \<and> \<not> (r \<le> 2 \<and> f \<le> 2)"
  unfolding rfm_segment_def by (simp split: if_split)

text \<open>
  Claim C1. The rule set is total and evaluated in the order 1 to 8, the first matching
  rule winning: for all scores in 1..5 the source's chain returns the label of the first
  rule of the table that matches, that label is exactly one of the eight labels, and the
  triple \<open>r = 4, f = 4, m = 1\<close> fails the condition of rule 1 and gets rule 2's label.
\<close>

theorem segmentation_total_first_match:
  assumes "1 \<le> r" "r \<le> 5" "1 \<le> f" "f \<le> 5" "1 \<le> m" "m \<le> 5"
  shows "first_match spec_rules r f m = Some (rfm_segment r f m)
         \<and> (\<exists>!l. l \<in> set segment_labels \<and> rfm_segment r f m = l)
         \<and> length segment_labels = 8 \<and> distinct segment_labels
         \<and> \<not> fst (spec_rules ! 0) 4 4 1 \<and> fst (spec_rules ! 1) 4 4 1
         \<and> rfm_segment 4 4 1 = ''Loyal Customers''"
proof -
  have "\<exists>!l. l \<in> set segment_labels \<and> rfm_segment r f m = l"
    using rfm_segment_label [of r f m] by blast
  moreover have "length segment_labels = 8"
    by (simp add: segment_labels_def spec_rules_def)
  moreover have "\<not> fst (spec_rules ! 0) 4 4 1 \<and> fst (spec_rules ! 1) 4 4 1
         \<and> rfm_segment 4 4 1 = ''Loyal Customers''"
    by (simp add: spec_rules_def rfm_segment_def)
  ultimately show ?thesis
    using rfm_segment_first_match [of r f m] distinct_segment_labels by blast
qed

theorem segmentation_total_first_match_witness:
  "first_match spec_rules 4 4 1 = Some (rfm_segment 4 4 1)
   \<and> rfm_segment 4 4 1 = ''Loyal Customers''"
  using segmentation_total_first_match [of 4 4 1] by simp

text \<open>
  Claim C10. For all scores in 1..5 the fallback label 'Need Attention' is assigned
  exactly when \<open>r_score = 3\<close> and \<open>f_score \<le> 3\<close>; the monetary score plays no part in it.
\<close>

theorem need_attention_iff:
  assumes "1 \<le> r" "r \<le> 5" "1 \<le> f" "f \<le> 5" "1 \<le> m" "m \<le> 5"
  shows "rfm_segment r f m = ''Need Attention'' \<longleftrightarrow> r = 3 \<and> f \<le> 3"
  unfolding need_attention_conds using assms by arith

theorem need_attention_iff_witness:
  "rfm_segment 3 2 5 = ''Need Attention'' \<and> rfm_segment 3 4 5 \<noteq> ''Need Attention''"
  using need_attention_iff [of 3 2 5] need_attention_iff [of 3 4 5] by simp

section \<open>Properties of the aggregation\<close>

lemma series_max_nonempty:
  assumes "xs \<noteq> []"
  shows "series_max xs = Some (Max (set xs))"
proof (cases xs)
  case Nil
  with assms show ?thesis by simp
next
  case (Cons x ys)
  then show ?thesis using Max.set_eq_fold [of x ys] by simp
qed

lemma set_group_keys: "set (group_keys df) = customer_unique_id ` set df"
  by (simp add: group_keys_def)

lemma distinct_group_keys: "distinct (group_keys df)"
  by (simp add: group_keys_def)

lemma sorted_group_keys: "sorted (group_keys df)"
  by (simp add: group_keys_def)

lemma set_group_rows: "set (group_rows df c) = {row \<in> set df. customer_unique_id row = c}"
  by (simp add: group_rows_def)

lemma group_rows_nonempty: "c \<in> set (group_keys df) \<Longrightarrow> group_rows df c \<noteq> []"
  by (auto simp add: set_group_keys group_rows_def filter_empty_conv)

lemma nunique_card: "nunique xs = card (set xs)"
  by (simp add: nunique_def length_remdups_card_conv)


lemma agg_group_Some:
  assumes "c \<in> set (group_keys df)"
  shows "agg_group ref df c =
    Some \<lparr>customer_id = c,
          recency = (ref - Max (order_purchase_timestamp ` {row \<in> set df. customer_unique_id row = c})) div one_day,
          frequency = card (order_id ` {row \<in> set df. customer_unique_id row = c}),
          monetary = sum_list (map total_payment (group_rows df c))\<rparr>"
proof -
  have ne: "map order_purchase_timestamp (group_rows df c) \<noteq> []"
    using group_rows_nonempty [OF assms] by simp
  show ?thesis
    unfolding agg_group_def Let_def series_max_nonempty [OF ne]
    by (simp add: timedelta_days_def nunique_card set_group_rows)
qed

lemma map_filter_all_Some:
  "(\<And>k. k \<in> set ks \<Longrightarrow> \<exists>r. f k = Some r \<and> g r = k) \<Longrightarrow> map g (List.map_filter f ks) = ks"
proof (induction ks)
  case Nil
  show ?case by (simp add: List.map_filter_simps)
next
  case (Cons k ks)
  from Cons.prems [of k] obtain r where "f k = Some r" "g r = k" by auto
  moreover have "map g (List.map_filter f ks) = ks"
    by (rule Cons.IH) (simp add: Cons.prems)
  ultimately show ?case by (simp add: List.map_filter_simps)
qed

lemma reference_date_nonempty:
  "df \<noteq> [] \<Longrightarrow> reference_date df = Some (Max (order_purchase_timestamp ` set df) + one_day)"
  by (simp add: reference_date_def series_max_nonempty)

lemma rfm_aggregate_empty: "rfm_aggregate [] = []"
  by (simp add: rfm_aggregate_def reference_date_def)

lemma rfm_aggregate_customer_ids: "map customer_id (rfm_aggregate df) = group_keys df"
proof (cases "df = []")
  case True
  then show ?thesis by (simp add: rfm_aggregate_empty group_keys_def)
next
  case False
  show ?thesis
    unfolding rfm_aggregate_def reference_date_nonempty [OF False] option.case
    by (rule map_filter_all_Some) (simp add: agg_group_Some)
qed

lemma rfm_aggregate_row:
  assumes "rec \<in> set (rfm_aggregate df)"
  shows "customer_id rec \<in> customer_unique_id ` set df
    \<and> recency rec = (Max (order_purchase_timestamp ` set df) + one_day
           - Max (order_purchase_timestamp ` {row \<in> set df. customer_unique_id row = customer_id rec})) div one_day
    \<and> frequency rec = card (order_id ` {row \<in> set df. customer_unique_id row = customer_id rec})
    \<and> monetary rec = sum_list (map total_payment (group_rows df (customer_id rec)))"
proof -
  have ne: "df \<noteq> []" using assms by (auto simp add: rfm_aggregate_empty)
  from assms obtain c where c: "c \<in> set (group_keys df)"
    and "agg_group (Max (order_purchase_timestamp ` set df) + one_day) df c = Some rec"
    unfolding rfm_aggregate_def reference_date_nonempty [OF ne] option.case
    by (auto simp add: List.map_filter_def)
  then show ?thesis
    using set_group_keys [of df] by (auto simp add: agg_group_Some)
qed




lemma aggregate_example:
  "rfm_aggregate
      [\<lparr>customer_unique_id = ''a'', order_id = ''o1'', order_purchase_timestamp = 0, total_payment = 10\<rparr>,
       \<lparr>customer_unique_id = ''b'', order_id = ''o2'', order_purchase_timestamp = 7, total_payment = 1\<rparr>,
       \<lparr>customer_unique_id = ''a'', order_id = ''o1'', order_purchase_timestamp = 0, total_payment = 5 / 2\<rparr>]
   = [\<lparr>customer_id = ''a'', recency = 1, frequency = 1, monetary = 25 / 2\<rparr>,
      \<lparr>customer_id = ''b'', recency = 1, frequency = 1, monetary = 1\<rparr>]"
  by code_simp

lemma one_day_pos: "0 < one_day"
  by (simp add: one_day_def)

text \<open>
  Claim C6. The recency of each aggregated row is the whole number of days from the
  reference instant, the greatest purchase timestamp of the whole input plus one day,
  back to the latest purchase timestamp of that customer. For a single customer with two
  orders, the first with a timestamp within day 1 and the second within day 5, the
  reference instant lies in day 6 and the one aggregated row has recency 1, frequency 2
  and the sum of the two payments as monetary value.
\<close>

theorem recency_from_reference_date:
  assumes "rec \<in> set (rfm_aggregate df)"
    and "o1 \<noteq> o2" and "t1 div one_day = 1" and "t5 div one_day = 5"
  shows "recency rec =
           (Max (order_purchase_timestamp ` set df) + one_day
            - Max (order_purchase_timestamp `
                     {row \<in> set df. customer_unique_id row = customer_id rec})) div one_day
    \<and> reference_date
          [\<lparr>customer_unique_id = c, order_id = o1, order_purchase_timestamp = t1, total_payment = p1\<rparr>,
           \<lparr>customer_unique_id = c, order_id = o2, order_purchase_timestamp = t5, total_payment = p2\<rparr>]
        = Some (t5 + one_day)
    \<and> (t5 + one_day) div one_day = 6
    \<and> rfm_aggregate
          [\<lparr>customer_unique_id = c, order_id = o1, order_purchase_timestamp = t1, total_payment = p1\<rparr>,
           \<lparr>customer_unique_id = c, order_id = o2, order_purchase_timestamp = t5, total_payment = p2\<rparr>]
        = [\<lparr>customer_id = c, recency = 1, frequency = 2, monetary = p1 + p2\<rparr>]"
proof -
  have lt: "t1 < t5"
  proof (rule ccontr)
    assume "\<not> t1 < t5"
    then have "t5 div one_day \<le> t1 div one_day"
      by (intro zdiv_mono1) (simp_all add: one_day_pos)
    with assms(3,4) show False by simp
  qed
  then have mx: "max t5 t1 = t5" by simp
  have six: "(t5 + one_day) div one_day = 6"
    using assms(4) one_day_pos by simp
  have ref: "reference_date
          [\<lparr>customer_unique_id = c, order_id = o1, order_purchase_timestamp = t1, total_payment = p1\<rparr>,
           \<lparr>customer_unique_id = c, order_id = o2, order_purchase_timestamp = t5, total_payment = p2\<rparr>]
        = Some (t5 + one_day)"
    by (simp add: reference_date_def mx)
  have agg: "rfm_aggregate
          [\<lparr>customer_unique_id = c, order_id = o1, order_purchase_timestamp = t1, total_payment = p1\<rparr>,
           \<lparr>customer_unique_id = c, order_id = o2, order_purchase_timestamp = t5, total_payment = p2\<rparr>]
        = [\<lparr>customer_id = c, recency = 1, frequency = 2, monetary = p1 + p2\<rparr>]"
    unfolding rfm_aggregate_def ref option.case
    using assms(2) one_day_pos
    by (simp add: group_keys_def List.map_filter_simps agg_group_def group_rows_def
        timedelta_days_def nunique_def mx)
  show ?thesis
    using rfm_aggregate_row [OF assms(1)] ref six agg by blast
qed


theorem recency_from_reference_date_witness:
  "rfm_aggregate
      [\<lparr>customer_unique_id = ''c'', order_id = ''o1'', order_purchase_timestamp = one_day, total_payment = 10\<rparr>,
       \<lparr>customer_unique_id = ''c'', order_id = ''o2'', order_purchase_timestamp = 5 * one_day, total_payment = 5 / 2\<rparr>]
   = [\<lparr>customer_id = ''c'', recency = 1, frequency = 2, monetary = 25 / 2\<rparr>]
   \<and> (5 * one_day + one_day) div one_day = 6"
proof -
  let ?df = "[\<lparr>customer_unique_id = ''c'', order_id = ''o1'', order_purchase_timestamp = one_day, total_payment = 10\<rparr>,
       \<lparr>customer_unique_id = ''c'', order_id = ''o2'', order_purchase_timestamp = 5 * one_day, total_payment = 5 / 2\<rparr>]"
  have h1: "\<lparr>customer_id = ''c'', recency = 1, frequency = 2, monetary = 25 / 2\<rparr> \<in> set (rfm_aggregate ?df)"
    by code_simp
  have h2: "''o1'' \<noteq> ''o2''" by simp
  have h3: "one_day div one_day = 1" by (simp add: one_day_def)
  have h4: "(5 * one_day) div one_day = 5" by (simp add: one_day_def)
  from recency_from_reference_date [OF h1 h2 h3 h4, where c = "''c''" and ?p1.0 = 10 and ?p2.0 = "5 / 2"]
  show ?thesis by simp
qed

section \<open>Properties of the scoring\<close>

lemma upt_0_6: "[0..<6] = [0, 1, 2, 3, 4, 5::nat]"
  by code_simp

lemma qcut_bins_list:
  "qcut_bins xs = [quantile5 xs 0, quantile5 xs 1, quantile5 xs 2,
                   quantile5 xs 3, quantile5 xs 4, quantile5 xs 5]"
  by (simp add: qcut_bins_def upt_0_6)

lemma length_qcut_bins: "length (qcut_bins xs) = 6"
  by (simp add: qcut_bins_def)

lemma quantile5_lowest: "quantile5 xs 0 = sort xs ! 0"
  by (simp add: quantile5_def Let_def)

lemma quantile5_highest: "quantile5 xs 5 = sort xs ! (length xs - 1)"
  by (simp add: quantile5_def Let_def)

lemma sort_nth_bounds:
  assumes "x \<in> set xs"
  shows "sort xs ! 0 \<le> x \<and> x \<le> sort xs ! (length xs - 1)"
proof -
  from assms have "x \<in> set (sort xs)" by simp
  then obtain j where j: "j < length (sort xs)" "sort xs ! j = x"
    unfolding in_set_conv_nth by blast
  have "sort xs ! 0 \<le> sort xs ! j"
    using j(1) by (intro sorted_nth_mono) simp_all
  moreover have "sort xs ! j \<le> sort xs ! (length xs - 1)"
    using j(1) by (intro sorted_nth_mono) simp_all
  ultimately show ?thesis using j(2) by simp
qed

lemma bin_id_bounds:
  assumes "x \<in> set xs"
  shows "1 \<le> bin_id (qcut_bins xs) x \<and> bin_id (qcut_bins xs) x \<le> 5"
proof -
  have lo: "quantile5 xs 0 \<le> x" and hi: "\<not> quantile5 xs 5 < x"
    using sort_nth_bounds [OF assms] by (simp_all add: quantile5_lowest quantile5_highest)
  show ?thesis
    using lo hi by (simp add: bin_id_def searchsorted_left_def qcut_bins_list)
qed

lemma take_label_Some:
  assumes "x \<in> set xs" and "length labels = 5"
  shows "\<exists>l \<in> set labels. take_label labels (qcut_bins xs) x = Some l"
proof -
  let ?i = "bin_id (qcut_bins xs) x"
  have b: "1 \<le> ?i" "?i \<le> 5" using bin_id_bounds [OF assms(1)] by simp_all
  then have "labels ! (?i - 1) \<in> set labels"
    using assms(2) by (intro nth_mem) simp
  moreover have "take_label labels (qcut_bins xs) x = Some (labels ! (?i - 1))"
    using b by (simp add: take_label_def Let_def length_qcut_bins)
  ultimately show ?thesis by blast
qed

lemma all_Some_map:
  "(\<And>y. y \<in> set ys \<Longrightarrow> \<exists>l \<in> S. y = Some l) \<Longrightarrow> \<exists>vs. ys = map Some vs \<and> set vs \<subseteq> S"
proof (induction ys)
  case Nil
  show ?case by simp
next
  case (Cons y ys)
  from Cons.prems [of y] obtain l where l: "l \<in> S" "y = Some l" by auto
  have "\<exists>vs. ys = map Some vs \<and> set vs \<subseteq> S"
    by (rule Cons.IH) (simp add: Cons.prems)
  then obtain vs where "ys = map Some vs" "set vs \<subseteq> S" by blast
  with l have "y # ys = map Some (l # vs) \<and> set (l # vs) \<subseteq> S" by simp
  then show ?case by (rule exI)
qed

lemma qcut_Inr:
  assumes "qcut xs labels = Inr ys"
  shows "xs \<noteq> [] \<and> distinct (qcut_bins xs) \<and> length labels = 5
         \<and> ys = map (take_label labels (qcut_bins xs)) xs"
  using assms by (auto simp add: qcut_def length_qcut_bins split: if_splits)


lemma qcut_labels:
  assumes "qcut xs labels = Inr ys"
  shows "\<exists>vs. ys = map Some vs \<and> length vs = length xs \<and> set vs \<subseteq> set labels"
proof -
  note q = qcut_Inr [OF assms]
  have "\<exists>l \<in> set labels. y = Some l" if "y \<in> set ys" for y
    using that q take_label_Some [of _ xs labels] by auto
  then obtain vs where vs: "ys = map Some vs" "set vs \<subseteq> set labels"
    using all_Some_map [of ys "set labels"] by blast
  moreover have "length ys = length xs" using q by simp
  ultimately show ?thesis by auto
qed

lemma astype_int_map_Some: "astype_int (map Some vs) = Inr vs"
  by (induction vs) simp_all


lemma length_rank_first: "length (rank_first xs) = length xs"
  by (simp add: rank_first_def)

lemma rfm_engine_Inr:
  assumes "rfm_engine df = Inr recs"
  shows "\<exists>rs fs ms.
      qcut (map (\<lambda>row. of_int (recency row)) (rfm_aggregate df)) [5, 4, 3, 2, 1] = Inr (map Some rs)
    \<and> qcut (map of_nat (rank_first (map frequency (rfm_aggregate df)))) [1, 2, 3, 4, 5] = Inr (map Some fs)
    \<and> qcut (map monetary (rfm_aggregate df)) [1, 2, 3, 4, 5] = Inr (map Some ms)
    \<and> length rs = length (rfm_aggregate df) \<and> length fs = length (rfm_aggregate df)
    \<and> length ms = length (rfm_aggregate df)
    \<and> set rs \<subseteq> {1, 2, 3, 4, 5} \<and> set fs \<subseteq> {1, 2, 3, 4, 5} \<and> set ms \<subseteq> {1, 2, 3, 4, 5}
    \<and> recs = map score_row (zip (rfm_aggregate df) (zip rs (zip fs ms)))"
proof -
  let ?agg = "rfm_aggregate df"
  let ?qr = "qcut (map (\<lambda>row. of_int (recency row)) ?agg) [5, 4, 3, 2, 1]"
  let ?qf = "qcut (map of_nat (rank_first (map frequency ?agg))) [1, 2, 3, 4, 5]"
  let ?qm = "qcut (map monetary ?agg) [1, 2, 3, 4, 5]"
  from assms obtain r_cat where r: "?qr = Inr r_cat"
    by (cases ?qr) (simp_all add: rfm_engine_def Let_def)
  from assms r obtain f_cat where f: "?qf = Inr f_cat"
    by (cases ?qf) (simp_all add: rfm_engine_def Let_def)
  from assms r f obtain m_cat where m: "?qm = Inr m_cat"
    by (cases ?qm) (simp_all add: rfm_engine_def Let_def)
  from qcut_labels [OF r] obtain rs where rs: "r_cat = map Some rs"
    "length rs = length ?agg" "set rs \<subseteq> {1, 2, 3, 4, 5}" by auto
  from qcut_labels [OF f] obtain fs where fs: "f_cat = map Some fs"
    "length fs = length ?agg" "set fs \<subseteq> {1, 2, 3, 4, 5}"
    by (auto simp add: length_rank_first)
  from qcut_labels [OF m] obtain ms where ms: "m_cat = map Some ms"
    "length ms = length ?agg" "set ms \<subseteq> {1, 2, 3, 4, 5}" by auto
  have "recs = map score_row (zip ?agg (zip rs (zip fs ms)))"
    using assms r f m rs(1) fs(1) ms(1)
    by (simp add: rfm_engine_def Let_def astype_int_map_Some)
  with r f m rs fs ms show ?thesis by blast
qed


lemma customer_id_score_row: "customer_id (score_row (row, r, f, m)) = customer_id row"
  by (simp add: score_row_def)

lemma map_customer_id_scored:
  assumes "length rs = length agg" "length fs = length agg" "length ms = length agg"
  shows "map customer_id (map score_row (zip agg (zip rs (zip fs ms)))) = map customer_id agg"
proof -
  have "map customer_id (map score_row (zip agg (zip rs (zip fs ms))))
        = map (\<lambda>(row, r, f, m). customer_id row) (zip agg (zip rs (zip fs ms)))"
    by (simp add: score_row_def case_prod_unfold)
  also have "\<dots> = map customer_id (map fst (zip agg (zip rs (zip fs ms))))"
    by (simp add: case_prod_unfold)
  also have "map fst (zip agg (zip rs (zip fs ms))) = agg"
    using assms by simp
  finally show ?thesis .
qed

lemma scored_row_cases:
  assumes "rec \<in> set (map score_row (zip agg (zip rs (zip fs ms))))"
  shows "\<exists>row r f m. row \<in> set agg \<and> r \<in> set rs \<and> f \<in> set fs \<and> m \<in> set ms
                     \<and> rec = score_row (row, r, f, m)"
proof -
  from assms obtain row r f m where z: "(row, r, f, m) \<in> set (zip agg (zip rs (zip fs ms)))"
    and rec: "rec = score_row (row, r, f, m)" by auto
  from z have "row \<in> set agg" "(r, f, m) \<in> set (zip rs (zip fs ms))"
    by (auto dest: set_zip_leftD set_zip_rightD)
  then have "row \<in> set agg" "r \<in> set rs" "(f, m) \<in> set (zip fs ms)"
    by (auto dest: set_zip_leftD set_zip_rightD)
  then have "row \<in> set agg \<and> r \<in> set rs \<and> f \<in> set fs \<and> m \<in> set ms"
    by (auto dest: set_zip_leftD set_zip_rightD)
  with rec show ?thesis by blast
qed

section \<open>Properties of the computation as a whole\<close>

lemma map_scores_scored:
  assumes "length rs = length agg" "length fs = length agg" "length ms = length agg"
  shows "map r_score (map score_row (zip agg (zip rs (zip fs ms)))) = rs"
    and "map f_score (map score_row (zip agg (zip rs (zip fs ms)))) = fs"
    and "map m_score (map score_row (zip agg (zip rs (zip fs ms)))) = ms"
  using assms by (simp_all add: list_eq_iff_nth_eq score_row_def)

lemma map_rfm_fields_scored:
  assumes "length rs = length agg" "length fs = length agg" "length ms = length agg"
  shows "map frequency (map score_row (zip agg (zip rs (zip fs ms)))) = map frequency agg"
    and "map monetary (map score_row (zip agg (zip rs (zip fs ms)))) = map monetary agg"
    and "map recency (map score_row (zip agg (zip rs (zip fs ms)))) = map recency agg"
  using assms by (simp_all add: list_eq_iff_nth_eq score_row_def)

lemma single_customer_raises:
  "rfm_engine
     [\<lparr>customer_unique_id = ''a'', order_id = ''o1'', order_purchase_timestamp = 0, total_payment = 10\<rparr>]
   = Inl (ValueError ''Bin edges must be unique'')"
  by code_simp

lemma empty_table_raises: "rfm_engine [] = Inl (ValueError ''Bin edges must be unique'')"
  by code_simp

lemma five_customers_scored:
  "rfm_engine
     [\<lparr>customer_unique_id = ''c'', order_id = ''o3'', order_purchase_timestamp = 2 * one_day, total_payment = 30\<rparr>,
      \<lparr>customer_unique_id = ''a'', order_id = ''o1'', order_purchase_timestamp = 0, total_payment = 10\<rparr>,
      \<lparr>customer_unique_id = ''e'', order_id = ''o5'', order_purchase_timestamp = 4 * one_day, total_payment = 1000\<rparr>,
      \<lparr>customer_unique_id = ''b'', order_id = ''o2'', order_purchase_timestamp = one_day, total_payment = 20\<rparr>,
      \<lparr>customer_unique_id = ''d'', order_id = ''o4'', order_purchase_timestamp = 3 * one_day, total_payment = 40\<rparr>]
   = Inr [\<lparr>customer_id = ''a'', recency = 5, frequency = 1, monetary = 10,
            r_score = 1, f_score = 1, m_score = 1, rfm_score = 1, segment = ''Hibernating''\<rparr>,
          \<lparr>customer_id = ''b'', recency = 4, frequency = 1, monetary = 20,
            r_score = 2, f_score = 2, m_score = 2, rfm_score = 2, segment = ''Hibernating''\<rparr>,
          \<lparr>customer_id = ''c'', recency = 3, frequency = 1, monetary = 30,
            r_score = 3, f_score = 3, m_score = 3, rfm_score = 3, segment = ''Need Attention''\<rparr>,
          \<lparr>customer_id = ''d'', recency = 2, frequency = 1, monetary = 40,
            r_score = 4, f_score = 4, m_score = 4, rfm_score = 4, segment = ''Champions''\<rparr>,
          \<lparr>customer_id = ''e'', recency = 1, frequency = 1, monetary = 1000,
            r_score = 5, f_score = 5, m_score = 5, rfm_score = 5, segment = ''Champions''\<rparr>]"
  by code_simp

text \<open>
  Claim C2, as stated, fails: a table with a single row is not empty, yet the computation
  raises (all six quintile edges of a one-customer population coincide) and yields no
  record at all.
\<close>

theorem one_record_per_customer_counterexample:
  "[\<lparr>customer_unique_id = ''a'', order_id = ''o1'', order_purchase_timestamp = 0, total_payment = 10\<rparr>] \<noteq> []
   \<and> \<not> (\<exists>recs. rfm_engine
     [\<lparr>customer_unique_id = ''a'', order_id = ''o1'', order_purchase_timestamp = 0, total_payment = 10\<rparr>]
       = Inr recs)"
  by (simp add: single_customer_raises)

text \<open>
  Claim C2, amended. Whenever the computation returns a table, that table has exactly one
  row per distinct customer identifier of the input, in ascending order of the
  identifier, none dropped and none duplicated, and every row carries one of the eight
  segment labels.
\<close>

theorem one_record_per_customer:
  assumes "rfm_engine df = Inr recs"
  shows "map customer_id recs = sort (remdups (map customer_unique_id df))
    \<and> distinct (map customer_id recs)
    \<and> set (map customer_id recs) = customer_unique_id ` set df
    \<and> length recs = card (customer_unique_id ` set df)
    \<and> (\<forall>rec \<in> set recs. segment rec \<in> set segment_labels)"
proof -
  from rfm_engine_Inr [OF assms] obtain rs fs ms where
    len: "length rs = length (rfm_aggregate df)" "length fs = length (rfm_aggregate df)"
         "length ms = length (rfm_aggregate df)"
    and recs: "recs = map score_row (zip (rfm_aggregate df) (zip rs (zip fs ms)))"
    by blast
  have ids: "map customer_id recs = group_keys df"
    unfolding recs map_customer_id_scored [OF len] by (rule rfm_aggregate_customer_ids)
  have "length (map customer_id recs) = card (set (group_keys df))"
    unfolding ids by (simp add: distinct_card distinct_group_keys)
  then have card: "length recs = card (customer_unique_id ` set df)"
    by (simp add: set_group_keys)
  have seg: "segment rec \<in> set segment_labels" if "rec \<in> set recs" for rec
  proof -
    from that scored_row_cases [of rec] recs obtain row r f m
      where "rec = score_row (row, r, f, m)" by blast
    then show ?thesis by (simp add: score_row_def rfm_segment_label)
  qed
  show ?thesis
    using ids card seg distinct_group_keys [of df] set_group_keys [of df]
    by (simp add: group_keys_def)
qed

theorem one_record_per_customer_witness:
  "rfm_engine
     [\<lparr>customer_unique_id = ''c'', order_id = ''o3'', order_purchase_timestamp = 2 * one_day, total_payment = 30\<rparr>,
      \<lparr>customer_unique_id = ''a'', order_id = ''o1'', order_purchase_timestamp = 0, total_payment = 10\<rparr>,
      \<lparr>customer_unique_id = ''e'', order_id = ''o5'', order_purchase_timestamp = 4 * one_day, total_payment = 1000\<rparr>,
      \<lparr>customer_unique_id = ''b'', order_id = ''o2'', order_purchase_timestamp = one_day, total_payment = 20\<rparr>,
      \<lparr>customer_unique_id = ''d'', order_id = ''o4'', order_purchase_timestamp = 3 * one_day, total_payment = 40\<rparr>]
   = Inr [\<lparr>customer_id = ''a'', recency = 5, frequency = 1, monetary = 10,
            r_score = 1, f_score = 1, m_score = 1, rfm_score = 1, segment = ''Hibernating''\<rparr>,
          \<lparr>customer_id = ''b'', recency = 4, frequency = 1, monetary = 20,
            r_score = 2, f_score = 2, m_score = 2, rfm_score = 2, segment = ''Hibernating''\<rparr>,
          \<lparr>customer_id = ''c'', recency = 3, frequency = 1, monetary = 30,
            r_score = 3, f_score = 3, m_score = 3, rfm_score = 3, segment = ''Need Attention''\<rparr>,
          \<lparr>customer_id = ''d'', recency = 2, frequency = 1, monetary = 40,
            r_score = 4, f_score = 4, m_score = 4, rfm_score = 4, segment = ''Champions''\<rparr>,
          \<lparr>customer_id = ''e'', recency = 1, frequency = 1, monetary = 1000,
            r_score = 5, f_score = 5, m_score = 5, rfm_score = 5, segment = ''Champions''\<rparr>]
   \<and> map customer_id [\<lparr>customer_id = ''a'', recency = 5, frequency = 1, monetary = 10,
            r_score = 1, f_score = 1, m_score = 1, rfm_score = 1, segment = ''Hibernating''\<rparr>,
          \<lparr>customer_id = ''b'', recency = 4, frequency = 1, monetary = 20,
            r_score = 2, f_score = 2, m_score = 2, rfm_score = 2, segment = ''Hibernating''\<rparr>,
          \<lparr>customer_id = ''c'', recency = 3, frequency = 1, monetary = 30,
            r_score = 3, f_score = 3, m_score = 3, rfm_score = 3, segment = ''Need Attention''\<rparr>,
          \<lparr>customer_id = ''d'', recency = 2, frequency = 1, monetary = 40,
            r_score = 4, f_score = 4, m_score = 4, rfm_score = 4, segment = ''Champions''\<rparr>,
          \<lparr>customer_id = ''e'', recency = 1, frequency = 1, monetary = 1000,
            r_score = 5, f_score = 5, m_score = 5, rfm_score = 5, segment = ''Champions''\<rparr>] = [''a'', ''b'', ''c'', ''d'', ''e'']
   \<and> length [\<lparr>customer_id = ''a'', recency = 5, frequency = 1, monetary = 10,
            r_score = 1, f_score = 1, m_score = 1, rfm_score = 1, segment = ''Hibernating''\<rparr>,
          \<lparr>customer_id = ''b'', recency = 4, frequency = 1, monetary = 20,
            r_score = 2, f_score = 2, m_score = 2, rfm_score = 2, segment = ''Hibernating''\<rparr>,
          \<lparr>customer_id = ''c'', recency = 3, frequency = 1, monetary = 30,
            r_score = 3, f_score = 3, m_score = 3, rfm_score = 3, segment = ''Need Attention''\<rparr>,
          \<lparr>customer_id = ''d'', recency = 2, frequency = 1, monetary = 40,
            r_score = 4, f_score = 4, m_score = 4, rfm_score = 4, segment = ''Champions''\<rparr>,
          \<lparr>customer_id = ''e'', recency = 1, frequency = 1, monetary = 1000,
            r_score = 5, f_score = 5, m_score = 5, rfm_score = 5, segment = ''Champions''\<rparr>]
       = card (customer_unique_id ` set
     [\<lparr>customer_unique_id = ''c'', order_id = ''o3'', order_purchase_timestamp = 2 * one_day, total_payment = 30\<rparr>,
      \<lparr>customer_unique_id = ''a'', order_id = ''o1'', order_purchase_timestamp = 0, total_payment = 10\<rparr>,
      \<lparr>customer_unique_id = ''e'', order_id = ''o5'', order_purchase_timestamp = 4 * one_day, total_payment = 1000\<rparr>,
      \<lparr>customer_unique_id = ''b'', order_id = ''o2'', order_purchase_timestamp = one_day, total_payment = 20\<rparr>,
      \<lparr>customer_unique_id = ''d'', order_id = ''o4'', order_purchase_timestamp = 3 * one_day, total_payment = 40\<rparr>])"
proof -
  let ?df = "[\<lparr>customer_unique_id = ''c'', order_id = ''o3'', order_purchase_timestamp = 2 * one_day, total_payment = 30\<rparr>,
      \<lparr>customer_unique_id = ''a'', order_id = ''o1'', order_purchase_timestamp = 0, total_payment = 10\<rparr>,
      \<lparr>customer_unique_id = ''e'', order_id = ''o5'', order_purchase_timestamp = 4 * one_day, total_payment = 1000\<rparr>,
      \<lparr>customer_unique_id = ''b'', order_id = ''o2'', order_purchase_timestamp = one_day, total_payment = 20\<rparr>,
      \<lparr>customer_unique_id = ''d'', order_id = ''o4'', order_purchase_timestamp = 3 * one_day, total_payment = 40\<rparr>]"
  let ?recs = "[\<lparr>customer_id = ''a'', recency = 5, frequency = 1, monetary = 10,
            r_score = 1, f_score = 1, m_score = 1, rfm_score = 1, segment = ''Hibernating''\<rparr>,
          \<lparr>customer_id = ''b'', recency = 4, frequency = 1, monetary = 20,
            r_score = 2, f_score = 2, m_score = 2, rfm_score = 2, segment = ''Hibernating''\<rparr>,
          \<lparr>customer_id = ''c'', recency = 3, frequency = 1, monetary = 30,
            r_score = 3, f_score = 3, m_score = 3, rfm_score = 3, segment = ''Need Attention''\<rparr>,
          \<lparr>customer_id = ''d'', recency = 2, frequency = 1, monetary = 40,
            r_score = 4, f_score = 4, m_score = 4, rfm_score = 4, segment = ''Champions''\<rparr>,
          \<lparr>customer_id = ''e'', recency = 1, frequency = 1, monetary = 1000,
            r_score = 5, f_score = 5, m_score = 5, rfm_score = 5, segment = ''Champions''\<rparr>]"
  have h: "rfm_engine ?df = Inr ?recs" by (rule five_customers_scored)
  from one_record_per_customer [OF h] h show ?thesis by simp
qed

text \<open>
  Claim C7. In every row of a table the computation returns, each of \<open>r_score\<close>,
  \<open>f_score\<close> and \<open>m_score\<close> is an integer between 1 and 5.
\<close>

theorem scores_in_range:
  assumes "rfm_engine df = Inr recs" and "rec \<in> set recs"
  shows "1 \<le> r_score rec \<and> r_score rec \<le> 5
       \<and> 1 \<le> f_score rec \<and> f_score rec \<le> 5
       \<and> 1 \<le> m_score rec \<and> m_score rec \<le> 5"
proof -
  from rfm_engine_Inr [OF assms(1)] obtain rs fs ms where
    sub: "set rs \<subseteq> {1, 2, 3, 4, 5}" "set fs \<subseteq> {1, 2, 3, 4, 5}" "set ms \<subseteq> {1, 2, 3, 4, 5}"
    and recs: "recs = map score_row (zip (rfm_aggregate df) (zip rs (zip fs ms)))"
    by blast
  from assms(2) scored_row_cases [of rec] recs obtain row r f m
    where mem: "r \<in> set rs" "f \<in> set fs" "m \<in> set ms"
      and rec: "rec = score_row (row, r, f, m)" by blast
  from mem sub have "r \<in> {1, 2, 3, 4, 5}" "f \<in> {1, 2, 3, 4, 5}" "m \<in> {1, 2, 3, 4, 5}"
    by blast+
  then have "1 \<le> r \<and> r \<le> 5" "1 \<le> f \<and> f \<le> 5" "1 \<le> m \<and> m \<le> 5"
    by auto
  then show ?thesis by (simp add: rec score_row_def)
qed


theorem scores_in_range_witness:
  "rfm_engine
     [\<lparr>customer_unique_id = ''c'', order_id = ''o3'', order_purchase_timestamp = 2 * one_day, total_payment = 30\<rparr>,
      \<lparr>customer_unique_id = ''a'', order_id = ''o1'', order_purchase_timestamp = 0, total_payment = 10\<rparr>,
      \<lparr>customer_unique_id = ''e'', order_id = ''o5'', order_purchase_timestamp = 4 * one_day, total_payment = 1000\<rparr>,
      \<lparr>customer_unique_id = ''b'', order_id = ''o2'', order_purchase_timestamp = one_day, total_payment = 20\<rparr>,
      \<lparr>customer_unique_id = ''d'', order_id = ''o4'', order_purchase_timestamp = 3 * one_day, total_payment = 40\<rparr>]
   = Inr [\<lparr>customer_id = ''a'', recency = 5, frequency = 1, monetary = 10,
            r_score = 1, f_score = 1, m_score = 1, rfm_score = 1, segment = ''Hibernating''\<rparr>,
          \<lparr>customer_id = ''b'', recency = 4, frequency = 1, monetary = 20,
            r_score = 2, f_score = 2, m_score = 2, rfm_score = 2, segment = ''Hibernating''\<rparr>,
          \<lparr>customer_id = ''c'', recency = 3, frequency = 1, monetary = 30,
            r_score = 3, f_score = 3, m_score = 3, rfm_score = 3, segment = ''Need Attention''\<rparr>,
          \<lparr>customer_id = ''d'', recency = 2, frequency = 1, monetary = 40,
            r_score = 4, f_score = 4, m_score = 4, rfm_score = 4, segment = ''Champions''\<rparr>,
          \<lparr>customer_id = ''e'', recency = 1, frequency = 1, monetary = 1000,
            r_score = 5, f_score = 5, m_score = 5, rfm_score = 5, segment = ''Champions''\<rparr>]
   \<and> 1 \<le> r_score \<lparr>customer_id = ''d'', recency = 2, frequency = 1, monetary = 40,
            r_score = 4, f_score = 4, m_score = 4, rfm_score = 4, segment = ''Champions''\<rparr>"
proof -
  let ?df = "[\<lparr>customer_unique_id = ''c'', order_id = ''o3'', order_purchase_timestamp = 2 * one_day, total_payment = 30\<rparr>,
      \<lparr>customer_unique_id = ''a'', order_id = ''o1'', order_purchase_timestamp = 0, total_payment = 10\<rparr>,
      \<lparr>customer_unique_id = ''e'', order_id = ''o5'', order_purchase_timestamp = 4 * one_day, total_payment = 1000\<rparr>,
      \<lparr>customer_unique_id = ''b'', order_id = ''o2'', order_purchase_timestamp = one_day, total_payment = 20\<rparr>,
      \<lparr>customer_unique_id = ''d'', order_id = ''o4'', order_purchase_timestamp = 3 * one_day, total_payment = 40\<rparr>]"
  let ?recs = "[\<lparr>customer_id = ''a'', recency = 5, frequency = 1, monetary = 10,
            r_score = 1, f_score = 1, m_score = 1, rfm_score = 1, segment = ''Hibernating''\<rparr>,
          \<lparr>customer_id = ''b'', recency = 4, frequency = 1, monetary = 20,
            r_score = 2, f_score = 2, m_score = 2, rfm_score = 2, segment = ''Hibernating''\<rparr>,
          \<lparr>customer_id = ''c'', recency = 3, frequency = 1, monetary = 30,
            r_score = 3, f_score = 3, m_score = 3, rfm_score = 3, segment = ''Need Attention''\<rparr>,
          \<lparr>customer_id = ''d'', recency = 2, frequency = 1, monetary = 40,
            r_score = 4, f_score = 4, m_score = 4, rfm_score = 4, segment = ''Champions''\<rparr>,
          \<lparr>customer_id = ''e'', recency = 1, frequency = 1, monetary = 1000,
            r_score = 5, f_score = 5, m_score = 5, rfm_score = 5, segment = ''Champions''\<rparr>]"
  let ?rec = "\<lparr>customer_id = ''d'', recency = 2, frequency = 1, monetary = 40,
            r_score = 4, f_score = 4, m_score = 4, rfm_score = 4, segment = ''Champions''\<rparr>"
  have h: "rfm_engine ?df = Inr ?recs" by (rule five_customers_scored)
  have m: "?rec \<in> set ?recs" by simp
  from scores_in_range [OF h m] h show ?thesis by blast
qed







text \<open>
  Claim C4, as stated, fails: on the empty table the computation does not raise an
  exception of a class \<open>EmptyInputError\<close>.
\<close>

theorem empty_input_error_counterexample:
  "\<not> (\<exists>e. rfm_engine [] = Inl e \<and> exc_type e = ''EmptyInputError'')"
  by (simp add: empty_table_raises)

text \<open>
  Claim C4, amended. On the empty table the computation fails with the \<open>ValueError\<close>
  that \<open>pd.qcut\<close> raises for bin edges that are not unique, and the script's catch-all
  handler shows it as an "Error loading data" message.
\<close>

theorem empty_input_value_error:
  "rfm_engine [] = Inl (ValueError ''Bin edges must be unique'')
   \<and> exc_type (ValueError ''Bin edges must be unique'') = ''ValueError''
   \<and> rfm_page [] = Inl ''Error loading data: Bin edges must be unique''"
  by (simp add: empty_table_raises rfm_page_def)

section \<open>Ranking of the frequencies\<close>

lemma length_filter_mono:
  "(\<And>y. y \<in> set xs \<Longrightarrow> P y \<Longrightarrow> Q y) \<Longrightarrow> length (filter P xs) \<le> length (filter Q xs)"
  by (induction xs) auto

lemma length_filter_disj:
  "(\<And>y. y \<in> set xs \<Longrightarrow> \<not> (P y \<and> Q y)) \<Longrightarrow>
     length (filter P xs) + length (filter Q xs) = length (filter (\<lambda>y. P y \<or> Q y) xs)"
  by (induction xs) auto

lemma length_filter_take_less:
  assumes "i < length xs" and "P (xs ! i)"
  shows "length (filter P (take i xs)) < length (filter P xs)"
proof -
  have "xs = take i xs @ xs ! i # drop (Suc i) xs"
    using assms(1) by (rule id_take_nth_drop)
  then have "filter P xs = filter P (take i xs) @ filter P (xs ! i # drop (Suc i) xs)"
    by (metis filter_append)
  then show ?thesis using assms(2) by simp
qed

lemma length_filter_take_take_less:
  assumes "i < j" and "j < length xs" and "P (xs ! i)"
  shows "length (filter P (take i xs)) < length (filter P (take j xs))"
proof -
  have "length (filter P (take i (take j xs))) < length (filter P (take j xs))"
    using assms by (intro length_filter_take_less) simp_all
  moreover have "take i (take j xs) = take i xs"
    using assms(1) by (simp add: min_def)
  ultimately show ?thesis by simp
qed

lemma rank_first_nth:
  "i < length xs \<Longrightarrow>
     rank_first xs ! i = 1 + length (filter (\<lambda>y. y < xs ! i) xs)
                           + length (filter (\<lambda>y. y = xs ! i) (take i xs))"
  by (simp add: rank_first_def)

lemma rank_first_less:
  assumes "i < length xs" "j < length xs" "xs ! i < xs ! j"
  shows "rank_first xs ! i < rank_first xs ! j"
proof -
  have "length (filter (\<lambda>y. y = xs ! i) (take i xs)) < length (filter (\<lambda>y. y = xs ! i) xs)"
    using assms(1) by (intro length_filter_take_less) simp_all
  then have "rank_first xs ! i
      \<le> length (filter (\<lambda>y. y < xs ! i) xs) + length (filter (\<lambda>y. y = xs ! i) xs)"
    using assms(1) by (simp add: rank_first_nth)
  also have "\<dots> = length (filter (\<lambda>y. y < xs ! i \<or> y = xs ! i) xs)"
    by (rule length_filter_disj) simp
  also have "\<dots> \<le> length (filter (\<lambda>y. y < xs ! j) xs)"
    using assms(3) by (intro length_filter_mono) auto
  also have "\<dots> < rank_first xs ! j"
    using assms(2) by (simp add: rank_first_nth)
  finally show ?thesis .
qed

lemma rank_first_tie:
  assumes "i < j" "j < length xs" "xs ! i = xs ! j"
  shows "rank_first xs ! i < rank_first xs ! j"
proof -
  have "length (filter (\<lambda>y. y = xs ! i) (take i xs))
        < length (filter (\<lambda>y. y = xs ! i) (take j xs))"
    using assms(1,2) by (intro length_filter_take_take_less) simp_all
  then show ?thesis
    using assms by (simp add: rank_first_nth)
qed

lemma rank_first_neq:
  assumes "i < length xs" "j < length xs" "i \<noteq> j"
  shows "rank_first xs ! i \<noteq> rank_first xs ! j"
proof -
  consider "xs ! i < xs ! j" | "xs ! j < xs ! i" | "xs ! i = xs ! j" "i < j"
    | "xs ! i = xs ! j" "j < i"
    using assms(3) by linarith
  then show ?thesis
  proof cases
    case 1
    from rank_first_less [OF assms(1,2) 1] show ?thesis by simp
  next
    case 2
    from rank_first_less [OF assms(2,1) 2] show ?thesis by simp
  next
    case 3
    from rank_first_tie [OF 3(2) assms(2) 3(1)] show ?thesis by simp
  next
    case 4
    from rank_first_tie [OF 4(2) assms(1) 4(1) [symmetric]] show ?thesis by simp
  qed
qed

lemma distinct_rank_first: "distinct (rank_first xs)"
  unfolding distinct_conv_nth length_rank_first
  using rank_first_neq [of _ xs] by blast

lemma rank_first_bounds:
  assumes "i < length xs"
  shows "1 \<le> rank_first xs ! i \<and> rank_first xs ! i \<le> length xs"
proof -
  have "length (filter (\<lambda>y. y = xs ! i) (take i xs)) < length (filter (\<lambda>y. y = xs ! i) xs)"
    using assms by (intro length_filter_take_less) simp_all
  then have "rank_first xs ! i
      \<le> length (filter (\<lambda>y. y < xs ! i) xs) + length (filter (\<lambda>y. y = xs ! i) xs)"
    using assms by (simp add: rank_first_nth)
  also have "\<dots> = length (filter (\<lambda>y. y < xs ! i \<or> y = xs ! i) xs)"
    by (rule length_filter_disj) simp
  also have "\<dots> \<le> length xs" by simp
  finally show ?thesis using assms by (simp add: rank_first_nth)
qed


lemma searchsorted_left_mono:
  "x \<le> y \<Longrightarrow> searchsorted_left bins x \<le> searchsorted_left bins y"
  unfolding searchsorted_left_def by (induction bins) auto

lemma hd_qcut_bins: "hd (qcut_bins xs) = quantile5 xs 0"
  by (simp add: qcut_bins_list)

lemma bin_id_mono:
  assumes "x \<in> set xs" "y \<in> set xs" "x \<le> y"
  shows "bin_id (qcut_bins xs) x \<le> bin_id (qcut_bins xs) y"
proof (cases "x = hd (qcut_bins xs)")
  case True
  then have "bin_id (qcut_bins xs) x = 1" by (simp add: bin_id_def)
  with bin_id_bounds [OF assms(2)] show ?thesis by simp
next
  case False
  have "hd (qcut_bins xs) \<le> x"
    using sort_nth_bounds [OF assms(1)] by (simp add: hd_qcut_bins quantile5_lowest)
  with False assms(3) have "y \<noteq> hd (qcut_bins xs)" by auto
  with False show ?thesis
    using searchsorted_left_mono [OF assms(3)] by (simp add: bin_id_def)
qed

lemma take_label_ascending:
  assumes "x \<in> set xs"
  shows "take_label [1, 2, 3, 4, 5] (qcut_bins xs) x = Some (int (bin_id (qcut_bins xs) x))"
proof -
  let ?i = "bin_id (qcut_bins xs) x"
  from bin_id_bounds [OF assms] have "?i = 1 \<or> ?i = 2 \<or> ?i = 3 \<or> ?i = 4 \<or> ?i = 5"
    by arith
  then show ?thesis
    by (elim disjE) (simp_all add: take_label_def Let_def length_qcut_bins)
qed

lemma f_score_monotone_in_rank:
  assumes "rfm_engine df = Inr recs"
    and "i < length recs" "j < length recs"
    and "rank_first (map frequency (rfm_aggregate df)) ! i
         \<le> rank_first (map frequency (rfm_aggregate df)) ! j"
  shows "f_score (recs ! i) \<le> f_score (recs ! j)"
proof -
  let ?agg = "rfm_aggregate df"
  let ?ranks = "rank_first (map frequency ?agg)"
  let ?xs = "map of_nat ?ranks :: rat list"
  from rfm_engine_Inr [OF assms(1)] obtain rs fs ms where
    q: "qcut ?xs [1, 2, 3, 4, 5] = Inr (map Some fs)"
    and len: "length rs = length ?agg" "length fs = length ?agg" "length ms = length ?agg"
    and recs: "recs = map score_row (zip ?agg (zip rs (zip fs ms)))"
    by blast
  have n: "length recs = length ?agg" using recs len by simp
  have lx: "length ?xs = length ?agg" by (simp add: length_rank_first)
  have fsc: "map f_score recs = fs" unfolding recs by (rule map_scores_scored(2) [OF len])
  have lab: "map Some fs = map (take_label [1, 2, 3, 4, 5] (qcut_bins ?xs)) ?xs"
    using qcut_Inr [OF q] by simp
  have at: "f_score (recs ! k) = int (bin_id (qcut_bins ?xs) (?xs ! k))" if "k < length recs" for k
  proof -
    have k: "k < length ?xs" using that n lx by simp
    then have mem: "?xs ! k \<in> set ?xs" by (rule nth_mem)
    have "Some (fs ! k) = map Some fs ! k" using that n len by simp
    also have "\<dots> = take_label [1, 2, 3, 4, 5] (qcut_bins ?xs) (?xs ! k)"
      unfolding lab using k by (rule nth_map)
    also have "\<dots> = Some (int (bin_id (qcut_bins ?xs) (?xs ! k)))"
      by (rule take_label_ascending [OF mem])
    finally have "fs ! k = int (bin_id (qcut_bins ?xs) (?xs ! k))" by simp
    moreover have "f_score (recs ! k) = map f_score recs ! k" using that by simp
    ultimately show ?thesis unfolding fsc by simp
  qed
  have i: "i < length ?ranks" and j: "j < length ?ranks"
    using assms(2,3) n by (simp_all add: length_rank_first)
  have "?xs ! i \<le> ?xs ! j" using assms(4) i j by simp
  moreover have "?xs ! i \<in> set ?xs"
    by (rule nth_mem) (use i in simp)
  moreover have "?xs ! j \<in> set ?xs"
    by (rule nth_mem) (use j in simp)
  ultimately have "bin_id (qcut_bins ?xs) (?xs ! i) \<le> bin_id (qcut_bins ?xs) (?xs ! j)"
    by (intro bin_id_mono)
  then show ?thesis using at [OF assms(2)] at [OF assms(3)] by simp
qed

lemma f_score_ties_in_row_order:
  assumes "rfm_engine df = Inr recs"
    and "i < j" "j < length recs" "frequency (recs ! i) = frequency (recs ! j)"
  shows "f_score (recs ! i) \<le> f_score (recs ! j)"
proof -
  let ?agg = "rfm_aggregate df"
  from rfm_engine_Inr [OF assms(1)] obtain rs fs ms where
    len: "length rs = length ?agg" "length fs = length ?agg" "length ms = length ?agg"
    and recs: "recs = map score_row (zip ?agg (zip rs (zip fs ms)))"
    by blast
  have n: "length recs = length ?agg" using recs len by simp
  have fr: "map frequency recs = map frequency ?agg"
    unfolding recs by (rule map_rfm_fields_scored(1) [OF len])
  have "frequency (recs ! k) = map frequency ?agg ! k" if "k < length recs" for k
  proof -
    have "frequency (recs ! k) = map frequency recs ! k" using that by simp
    then show ?thesis unfolding fr .
  qed
  with assms(2,3,4) have eq: "map frequency ?agg ! i = map frequency ?agg ! j" by simp
  have "rank_first (map frequency ?agg) ! i < rank_first (map frequency ?agg) ! j"
    using assms(2,3) n eq by (intro rank_first_tie) simp_all
  then show ?thesis
    using assms(2,3) by (intro f_score_monotone_in_rank [OF assms(1)]) simp_all
qed

text \<open>
  Claim C8. The frequency column is ranked before binning with ties broken by the order
  of the rows of the ranked table (the aggregated customer table): an entry is ranked
  below every later entry of the same frequency and below every entry of greater
  frequency, all ranks are distinct and lie between 1 and the number of customers. In a
  returned table, of two customers of identical frequency the one in the earlier row
  never gets the higher \<open>f_score\<close>, and such customers can get distinct scores: five
  customers with one order each get the scores 1 to 5 in the order of their rows. The
  result is a function of the input table.
\<close>

theorem frequency_rank_tie_break:
  "distinct (rank_first xs)
   \<and> (\<forall>i j. i < j \<and> j < length xs \<and> xs ! i = xs ! j
          \<longrightarrow> rank_first xs ! i < rank_first xs ! j)
   \<and> (\<forall>i j. i < length xs \<and> j < length xs \<and> xs ! i < xs ! j
          \<longrightarrow> rank_first xs ! i < rank_first xs ! j)
   \<and> (\<forall>i. i < length xs \<longrightarrow> 1 \<le> rank_first xs ! i \<and> rank_first xs ! i \<le> length xs)
   \<and> (\<forall>recs i j. rfm_engine df = Inr recs \<and> i < j \<and> j < length recs
          \<and> frequency (recs ! i) = frequency (recs ! j)
          \<longrightarrow> f_score (recs ! i) \<le> f_score (recs ! j))
   \<and> (\<exists>recs. rfm_engine
     [\<lparr>customer_unique_id = ''c'', order_id = ''o3'', order_purchase_timestamp = 2 * one_day, total_payment = 30\<rparr>,
      \<lparr>customer_unique_id = ''a'', order_id = ''o1'', order_purchase_timestamp = 0, total_payment = 10\<rparr>,
      \<lparr>customer_unique_id = ''e'', order_id = ''o5'', order_purchase_timestamp = 4 * one_day, total_payment = 1000\<rparr>,
      \<lparr>customer_unique_id = ''b'', order_id = ''o2'', order_purchase_timestamp = one_day, total_payment = 20\<rparr>,
      \<lparr>customer_unique_id = ''d'', order_id = ''o4'', order_purchase_timestamp = 3 * one_day, total_payment = 40\<rparr>] = Inr recs
        \<and> map customer_id recs = [''a'', ''b'', ''c'', ''d'', ''e'']
        \<and> map frequency recs = [1, 1, 1, 1, 1]
        \<and> map f_score recs = [1, 2, 3, 4, 5])"
proof -
  have "\<exists>recs. rfm_engine
     [\<lparr>customer_unique_id = ''c'', order_id = ''o3'', order_purchase_timestamp = 2 * one_day, total_payment = 30\<rparr>,
      \<lparr>customer_unique_id = ''a'', order_id = ''o1'', order_purchase_timestamp = 0, total_payment = 10\<rparr>,
      \<lparr>customer_unique_id = ''e'', order_id = ''o5'', order_purchase_timestamp = 4 * one_day, total_payment = 1000\<rparr>,
      \<lparr>customer_unique_id = ''b'', order_id = ''o2'', order_purchase_timestamp = one_day, total_payment = 20\<rparr>,
      \<lparr>customer_unique_id = ''d'', order_id = ''o4'', order_purchase_timestamp = 3 * one_day, total_payment = 40\<rparr>] = Inr recs
        \<and> map customer_id recs = [''a'', ''b'', ''c'', ''d'', ''e'']
        \<and> map frequency recs = [1, 1, 1, 1, 1]
        \<and> map f_score recs = [1, 2, 3, 4, 5]"
    unfolding five_customers_scored by simp
  then show ?thesis
    using distinct_rank_first [of xs] rank_first_tie [of _ _ xs] rank_first_less [of _ xs]
      rank_first_bounds [of _ xs] f_score_ties_in_row_order [of df]
    by blast
qed

theorem frequency_rank_tie_break_witness:
  "rank_first [2, 1, 2] ! 0 < rank_first [2, 1, 2] ! 2
   \<and> rank_first [2, 1, 2] ! 1 < rank_first [2, 1, 2] ! 0
   \<and> rank_first [2, 1, 2] = [2, 1, 3]"
proof -
  have tie: "(0::nat) < 2 \<and> 2 < length [2, 1, 2::nat] \<and> [2, 1, 2::nat] ! 0 = [2, 1, 2] ! 2"
    by simp
  have less: "1 < length [2, 1, 2::nat] \<and> 0 < length [2, 1, 2::nat] \<and> [2, 1, 2::nat] ! 1 < [2, 1, 2] ! 0"
    by simp
  have val: "rank_first [2, 1, 2] = [2, 1, 3]" by code_simp
  from frequency_rank_tie_break [of "[2, 1, 2]"] tie less val show ?thesis by blast
qed

section \<open>Failure of the binning\<close>







text \<open>A population with fewer than five distinct values on every axis can still be binned.\<close>

lemma two_customers_scored:
  "rfm_engine
     [\<lparr>customer_unique_id = ''b'', order_id = ''o1'', order_purchase_timestamp = 0, total_payment = 10\<rparr>,
      \<lparr>customer_unique_id = ''a'', order_id = ''o2'', order_purchase_timestamp = one_day, total_payment = 20\<rparr>]
   = Inr [\<lparr>customer_id = ''a'', recency = 1, frequency = 1, monetary = 20,
            r_score = 5, f_score = 1, m_score = 5, rfm_score = 11 / 3, segment = ''Recent Customers''\<rparr>,
          \<lparr>customer_id = ''b'', recency = 2, frequency = 1, monetary = 10,
            r_score = 1, f_score = 5, m_score = 1, rfm_score = 7 / 3, segment = ''At Risk''\<rparr>]"
  by code_simp

end
